theory Spec2Isabelle
  imports Main "HOL-Library.Word"
begin

section \<open>The forwarder of a fabric router (router/forwarder/forwarder.go)\<close>

text \<open>
  The Go file \<^verbatim>\<open>forwarder.go\<close> holds the \<^verbatim>\<open>Forwarder\<close> struct and its methods.
  The three tables it works on (\<^verbatim>\<open>sessionTable\<close>, \<^verbatim>\<open>forwardTable\<close>,
  \<^verbatim>\<open>destinationTable\<close>) live in another file of the same package; their methods are
  modelled from the specification's contracts (sections 3, 4.1 and 4.2) and marked so.

  Conventions of the embedding:
  \<^item> Go strings (\<^verbatim>\<open>xgress.Address\<close>, session ids, link tokens) are \<open>string\<close>;
  \<^item> \<^verbatim>\<open>int64\<close> and \<^verbatim>\<open>time.Duration\<close> are \<open>64 word\<close>, read signed, so that
    \<open>-\<close> and \<open>*\<close> wrap as they do in Go;
  \<^item> the concurrent maps are partial functions; a method with a pointer receiver takes
    the forwarder and returns the updated one;
  \<^item> a Go \<^verbatim>\<open>error\<close> result is \<open>error option\<close> (\<open>None\<close> is \<^verbatim>\<open>nil\<close>);
  \<^item> a run-time panic (failed type assertion, \<^verbatim>\<open>time.NewTicker\<close> with a non-positive
    interval) is \<open>Inl\<close> of a sum;
  \<^item> calls the forwarder makes on its collaborators (\<^verbatim>\<open>SendPayload\<close>,
    \<^verbatim>\<open>SendAcknowledgement\<close>, and every \<^verbatim>\<open>go\<close> statement) are appended to a log
    \<open>calls\<close> carried next to the tables; what the collaborators answer comes from an
    environment \<open>env\<close>;
  \<^item> log output (\<^verbatim>\<open>pfxlog\<close>) is not modelled.
\<close>

subsection \<open>Data\<close>

type_synonym address = string
type_synonym sessionId = string
type_synonym int64 = "64 word"

text \<open>
  \<^verbatim>\<open>Destination\<close> is an interface with two implementations in the router: an xgress
  endpoint, which also implements \<^verbatim>\<open>XgressDestination\<close>, and an \<^verbatim>\<open>xlink.Xlink\<close>, which
  does not. The string identifies the object: the label of the xgress, the
  \<^verbatim>\<open>Id().Token\<close> of the link.
\<close>

datatype destination = Xgress string | Xlink string

text \<open>The type assertion \<^verbatim>\<open>destination.(XgressDestination)\<close>: \<open>None\<close> is the panic.\<close>

fun assertXgressDestination :: "destination \<Rightarrow> destination option" where
  "assertXgressDestination (Xgress l) = Some (Xgress l)"
| "assertXgressDestination (Xlink t) = None"

fun isXgressDestination :: "destination \<Rightarrow> bool" where
  "isXgressDestination (Xgress l) = True"
| "isXgressDestination (Xlink t) = False"

text \<open>\<^verbatim>\<open>errors.Errorf(format, args...)\<close>: the format string and the arguments.\<close>

datatype error = Errorf string "string list"

datatype panic = TypeAssertionPanic | NewTickerPanic

record payload =
  payloadSessionId :: sessionId
  payloadBody :: string

record acknowledgement =
  ackSessionId :: sessionId
  ackBody :: string

record route_forward =
  SrcAddress :: string
  DstAddress :: string

record route =
  SessionId :: string
  Forwards :: "route_forward list"

datatype call =
    SendPayload destination payload
  | SendAcknowledgement destination acknowledgement
  | GoUnrouted destination
  | GoUnrouteTimeout sessionId int64

type_synonym forwardTable = "address \<rightharpoonup> address"

text \<open>
  The \<^verbatim>\<open>Forwarder\<close> struct: \<open>sessions\<close> is the session table; \<open>destinations\<close> and
  \<open>sessionAddresses\<close> are the two mappings of the destination table (address to
  destination, session to addresses); \<open>XgressCloseCheckInterval\<close> is the one field of
  \<^verbatim>\<open>Options\<close> the file reads; \<open>calls\<close> is the log of outgoing calls.
\<close>

record forwarder =
  sessions :: "sessionId \<rightharpoonup> forwardTable"
  destinations :: "address \<rightharpoonup> destination"
  sessionAddresses :: "sessionId \<rightharpoonup> address list"
  XgressCloseCheckInterval :: int64
  calls :: "call list"

text \<open>What the collaborators answer when called, and the clock.\<close>

record env =
  sendPayload :: "destination \<Rightarrow> payload \<Rightarrow> error option"
  sendAcknowledgement :: "destination \<Rightarrow> acknowledgement \<Rightarrow> error option"
  getTimeOfLastRxFromLink :: "destination \<Rightarrow> int64"
  nowInMilliseconds :: int64

subsection \<open>The tables\<close>

text \<open>Modelled from the spec: \<^verbatim>\<open>newSessionTable\<close>, section 3 (the session table
  starts without entries).\<close>

definition newSessionTable :: "sessionId \<rightharpoonup> forwardTable" where
  "newSessionTable = Map.empty"

text \<open>Modelled from the spec: \<^verbatim>\<open>newDestinationTable\<close>, section 3 (both mappings of
  the address map start without entries).\<close>

definition newDestinationTable :: "(address \<rightharpoonup> destination) \<times> (sessionId \<rightharpoonup> address list)" where
  "newDestinationTable = (Map.empty, Map.empty)"

text \<open>
  \<^verbatim>\<open>NewForwarder\<close>: of its arguments only the options are kept here; the metrics
  registry, the faulter, the scanner and the trace controller are not modelled.
\<close>

definition NewForwarder :: "int64 \<Rightarrow> forwarder" where
  "NewForwarder interval =
     \<lparr>sessions = newSessionTable,
      destinations = fst newDestinationTable,
      sessionAddresses = snd newDestinationTable,
      XgressCloseCheckInterval = interval, calls = []\<rparr>"

text \<open>Modelled from the spec: \<^verbatim>\<open>sessionTable.getForwardTable\<close>, section 4.2
  (\<open>GetForwardTable(sessionId) \<rightarrow> (ft, found)\<close>).\<close>

definition getForwardTable :: "forwarder \<Rightarrow> sessionId \<Rightarrow> forwardTable option" where
  "getForwardTable fw sid = sessions fw sid"

text \<open>Modelled from the spec: \<^verbatim>\<open>sessionTable.setForwardTable\<close>, section 4.2 (the session
  table maps a session id to its forward table, keys unique).\<close>

definition setForwardTable :: "sessionId \<Rightarrow> forwardTable \<Rightarrow> forwarder \<Rightarrow> forwarder" where
  "setForwardTable sid ft fw = fw\<lparr>sessions := (sessions fw)(sid \<mapsto> ft)\<rparr>"

text \<open>Modelled from the spec: \<^verbatim>\<open>sessionTable.removeForwardTable\<close>, section 4.2
  (\<open>RemoveForwardTable(sessionId)\<close>).\<close>

definition removeForwardTable :: "sessionId \<Rightarrow> forwarder \<Rightarrow> forwarder" where
  "removeForwardTable sid fw = fw\<lparr>sessions := (sessions fw)(sid := None)\<rparr>"

text \<open>Modelled from the spec: \<^verbatim>\<open>newForwardTable\<close>, section 3 (created empty at first
  Route).\<close>

definition newForwardTable :: forwardTable where
  "newForwardTable = Map.empty"

text \<open>Modelled from the spec: \<^verbatim>\<open>forwardTable.setForwardAddress\<close>, section 4.2
  (last writer wins).\<close>

definition setForwardAddress :: "address \<Rightarrow> address \<Rightarrow> forwardTable \<Rightarrow> forwardTable" where
  "setForwardAddress src dst ft = ft(src \<mapsto> dst)"

text \<open>Modelled from the spec: \<^verbatim>\<open>forwardTable.getForwardAddress\<close>, section 4.2
  (\<open>GetForwardAddress(srcAddr) \<rightarrow> (dstAddr, found)\<close>).\<close>

definition getForwardAddress :: "forwardTable \<Rightarrow> address \<Rightarrow> address option" where
  "getForwardAddress ft src = ft src"

text \<open>Modelled from the spec: \<^verbatim>\<open>destinationTable.addDestination\<close>, section 4.1
  (overwrite on key collision, last writer wins).\<close>

definition addDestination :: "address \<Rightarrow> destination \<Rightarrow> forwarder \<Rightarrow> forwarder" where
  "addDestination a d fw = fw\<lparr>destinations := (destinations fw)(a \<mapsto> d)\<rparr>"

text \<open>Modelled from the spec: \<^verbatim>\<open>destinationTable.getDestination\<close>, section 4.1
  (\<open>GetDestination(addr) \<rightarrow> (dest, found)\<close>).\<close>

definition getDestination :: "forwarder \<Rightarrow> address \<Rightarrow> destination option" where
  "getDestination fw a = destinations fw a"

text \<open>Modelled from the spec: \<^verbatim>\<open>destinationTable.removeDestination\<close>, section 4.1
  (removes the address from mapping (1) only).\<close>

definition removeDestination :: "address \<Rightarrow> forwarder \<Rightarrow> forwarder" where
  "removeDestination a fw = fw\<lparr>destinations := (destinations fw)(a := None)\<rparr>"

text \<open>Modelled from the spec: \<^verbatim>\<open>destinationTable.linkDestinationToSession\<close>, section 4.1
  (\<open>LinkSession\<close> adds the address to the session's address set) and section 3 (an
  ordered set, duplicates collapsed): the address is appended unless already there.\<close>

definition linkDestinationToSession :: "sessionId \<Rightarrow> address \<Rightarrow> forwarder \<Rightarrow> forwarder" where
  "linkDestinationToSession sid a fw =
     fw\<lparr>sessionAddresses := (sessionAddresses fw)(sid \<mapsto>
          (case sessionAddresses fw sid of
             None \<Rightarrow> [a]
           | Some addrs \<Rightarrow> if a \<in> set addrs then addrs else addrs @ [a]))\<rparr>"

text \<open>Modelled from the spec: \<^verbatim>\<open>destinationTable.getAddressesForSession\<close>, section 4.1
  (\<open>GetAddressesForSession(sessionId) \<rightarrow> (addrs, found)\<close>, a snapshot).\<close>

definition getAddressesForSession :: "forwarder \<Rightarrow> sessionId \<Rightarrow> address list option" where
  "getAddressesForSession fw sid = sessionAddresses fw sid"

text \<open>Modelled from the spec: \<^verbatim>\<open>destinationTable.unlinkSession\<close>, section 4.1 (removes
  the session key from mapping (2); does not touch (1)).\<close>

definition unlinkSession :: "sessionId \<Rightarrow> forwarder \<Rightarrow> forwarder" where
  "unlinkSession sid fw = fw\<lparr>sessionAddresses := (sessionAddresses fw)(sid := None)\<rparr>"

subsection \<open>The methods of the forwarder\<close>

text \<open>A call on a collaborator, or a \<^verbatim>\<open>go\<close> statement, is recorded in the log.\<close>

definition emit :: "call \<Rightarrow> forwarder \<Rightarrow> forwarder" where
  "emit c fw = fw\<lparr>calls := calls fw @ [c]\<rparr>"

definition RegisterDestination ::
  "forwarder \<Rightarrow> sessionId \<Rightarrow> address \<Rightarrow> destination \<Rightarrow> forwarder" where
  "RegisterDestination fw sid a d =
     linkDestinationToSession sid a (addDestination a d fw)"

text \<open>
  The loop of \<^verbatim>\<open>UnregisterDestinations\<close> over the snapshot of addresses. For a found
  destination the entry is removed first; the \<^verbatim>\<open>go\<close> statement then evaluates the type
  assertion in the calling goroutine, so a destination that is not an
  \<^verbatim>\<open>XgressDestination\<close> panics there, after the removal.
\<close>

fun unregisterEach :: "address list \<Rightarrow> forwarder \<Rightarrow> panic + forwarder" where
  "unregisterEach [] fw = Inr fw"
| "unregisterEach (a # addrs) fw =
     (case getDestination fw a of
        Some d \<Rightarrow>
          (let fw1 = removeDestination a fw in
             case assertXgressDestination d of
               None \<Rightarrow> Inl TypeAssertionPanic
             | Some x \<Rightarrow> unregisterEach addrs (emit (GoUnrouted x) fw1))
      | None \<Rightarrow> unregisterEach addrs fw)"

definition UnregisterDestinations :: "forwarder \<Rightarrow> sessionId \<Rightarrow> panic + forwarder" where
  "UnregisterDestinations fw sid =
     (case getAddressesForSession fw sid of
        Some addrs \<Rightarrow>
          (case unregisterEach addrs fw of
             Inl p \<Rightarrow> Inl p
           | Inr fw1 \<Rightarrow> Inr (unlinkSession sid fw1))
      | None \<Rightarrow> Inr fw)"

definition HasDestination :: "forwarder \<Rightarrow> address \<Rightarrow> bool" where
  "HasDestination fw a = (case getDestination fw a of Some d \<Rightarrow> True | None \<Rightarrow> False)"

text \<open>A link is given by its identity token \<^verbatim>\<open>link.Id().Token\<close>.\<close>

definition RegisterLink :: "forwarder \<Rightarrow> string \<Rightarrow> forwarder" where
  "RegisterLink fw token = addDestination token (Xlink token) fw"

definition UnregisterLink :: "forwarder \<Rightarrow> string \<Rightarrow> forwarder" where
  "UnregisterLink fw token = removeDestination token fw"

definition Route :: "forwarder \<Rightarrow> route \<Rightarrow> forwarder" where
  "Route fw r =
     (let sid = SessionId r;
          sessionFt = (case getForwardTable fw sid of
                         Some ft \<Rightarrow> ft
                       | None \<Rightarrow> newForwardTable);
          sessionFt1 = foldl (\<lambda>ft forward.
                          setForwardAddress (SrcAddress forward) (DstAddress forward) ft)
                        sessionFt (Forwards r)
      in setForwardTable sid sessionFt1 fw)"

definition EndSession :: "forwarder \<Rightarrow> sessionId \<Rightarrow> panic + forwarder" where
  "EndSession fw sid = UnregisterDestinations fw sid"

definition Unroute :: "forwarder \<Rightarrow> sessionId \<Rightarrow> bool \<Rightarrow> panic + forwarder" where
  "Unroute fw sid now =
     (if now then EndSession (removeForwardTable sid fw) sid
      else Inr (emit (GoUnrouteTimeout sid (XgressCloseCheckInterval fw)) fw))"

definition ForwardPayload ::
  "env \<Rightarrow> forwarder \<Rightarrow> address \<Rightarrow> payload \<Rightarrow> error option \<times> forwarder" where
  "ForwardPayload e fw srcAddr p =
     (let sid = payloadSessionId p in
      case getForwardTable fw sid of
        Some forwardTable \<Rightarrow>
          (case getForwardAddress forwardTable srcAddr of
             Some dstAddr \<Rightarrow>
               (case getDestination fw dstAddr of
                  Some dst \<Rightarrow>
                    (case sendPayload e dst p of
                       Some err \<Rightarrow> (Some err, emit (SendPayload dst p) fw)
                     | None \<Rightarrow> (None, emit (SendPayload dst p) fw))
                | None \<Rightarrow>
                    (Some (Errorf
                       ''cannot forward payload, no destination for session=%v src=%v dst=%v''
                       [sid, srcAddr, dstAddr]), fw))
           | None \<Rightarrow>
               (Some (Errorf
                  ''cannot forward payload, no destination address for session=%v src=%v''
                  [sid, srcAddr]), fw))
      | None \<Rightarrow>
          (Some (Errorf ''cannot forward payload, no forward table for session=%v src=%v''
             [sid, srcAddr]), fw))"

definition ForwardAcknowledgement ::
  "env \<Rightarrow> forwarder \<Rightarrow> address \<Rightarrow> acknowledgement \<Rightarrow> error option \<times> forwarder" where
  "ForwardAcknowledgement e fw srcAddr ack =
     (let sid = ackSessionId ack in
      case getForwardTable fw sid of
        Some forwardTable \<Rightarrow>
          (case getForwardAddress forwardTable srcAddr of
             Some dstAddr \<Rightarrow>
               (case getDestination fw dstAddr of
                  Some dst \<Rightarrow>
                    (case sendAcknowledgement e dst ack of
                       Some err \<Rightarrow> (Some err, emit (SendAcknowledgement dst ack) fw)
                     | None \<Rightarrow> (None, emit (SendAcknowledgement dst ack) fw))
                | None \<Rightarrow>
                    (Some (Errorf
                       ''cannot acknowledge, no destination for session=%v src=%v dst=%v''
                       [sid, srcAddr, dstAddr]), fw))
           | None \<Rightarrow>
               (Some (Errorf
                  ''cannot acknowledge, no destination address for session=%v src=%v''
                  [sid, srcAddr]), fw))
      | None \<Rightarrow>
          (Some (Errorf ''cannot acknowledge, no forward table for session=%v src=%v''
             [sid, srcAddr]), fw))"

text \<open>
  \<^verbatim>\<open>getXgressForSession\<close>: the first address of the session that has a destination
  decides; its destination is returned through the unchecked type assertion.
  \<open>Inr None\<close> is the \<^verbatim>\<open>nil\<close> result.
\<close>

fun firstXgress :: "forwarder \<Rightarrow> address list \<Rightarrow> panic + destination option" where
  "firstXgress fw [] = Inr None"
| "firstXgress fw (a # addrs) =
     (case getDestination fw a of
        Some d \<Rightarrow>
          (case assertXgressDestination d of
             None \<Rightarrow> Inl TypeAssertionPanic
           | Some x \<Rightarrow> Inr (Some x))
      | None \<Rightarrow> firstXgress fw addrs)"

definition getXgressForSession :: "forwarder \<Rightarrow> sessionId \<Rightarrow> panic + destination option" where
  "getXgressForSession fw sid =
     (case getAddressesForSession fw sid of
        Some addrs \<Rightarrow> firstXgress fw addrs
      | None \<Rightarrow> Inr None)"

text \<open>
  \<^verbatim>\<open>unrouteTimeout\<close>. The \<^verbatim>\<open>select\<close> receives from the ticker or from
  \<^verbatim>\<open>CloseNotify\<close>; one pass through it either returns or goes round the loop again.
  \<^verbatim>\<open>time.Millisecond\<close> is 1000000 (a \<^verbatim>\<open>Duration\<close> counts nanoseconds); the subtraction
  and the product are 64-bit and wrap.
\<close>

datatype select_event = TickerC | CloseNotifyC

datatype loop = Continue | Return

definition unrouteTimeoutSelect ::
  "env \<Rightarrow> forwarder \<Rightarrow> sessionId \<Rightarrow> int64 \<Rightarrow> select_event \<Rightarrow> panic + (loop \<times> forwarder)" where
  "unrouteTimeoutSelect e fw sid interval ev =
     (case ev of
        TickerC \<Rightarrow>
          (case getXgressForSession fw sid of
             Inl p \<Rightarrow> Inl p
           | Inr (Some dest) \<Rightarrow>
               (let elapsedDelta = nowInMilliseconds e - getTimeOfLastRxFromLink e dest in
                if sint interval \<le> sint (elapsedDelta * 1000000) then
                  (case EndSession (removeForwardTable sid fw) sid of
                     Inl p \<Rightarrow> Inl p
                   | Inr fw1 \<Rightarrow> Inr (Return, fw1))
                else Inr (Continue, fw))
           | Inr None \<Rightarrow>
               (case EndSession (removeForwardTable sid fw) sid of
                  Inl p \<Rightarrow> Inl p
                | Inr fw1 \<Rightarrow> Inr (Return, fw1)))
      | CloseNotifyC \<Rightarrow> Inr (Return, fw))"

text \<open>
  The loop, run on the events the goroutine receives, each with the environment of its
  moment. When the events are used up the goroutine is still waiting (\<open>Continue\<close>).
\<close>

fun unrouteTimeoutLoop ::
  "forwarder \<Rightarrow> sessionId \<Rightarrow> int64 \<Rightarrow> (env \<times> select_event) list \<Rightarrow> panic + (loop \<times> forwarder)" where
  "unrouteTimeoutLoop fw sid interval [] = Inr (Continue, fw)"
| "unrouteTimeoutLoop fw sid interval ((e, ev) # evs) =
     (case unrouteTimeoutSelect e fw sid interval ev of
        Inl p \<Rightarrow> Inl p
      | Inr (Return, fw1) \<Rightarrow> Inr (Return, fw1)
      | Inr (Continue, fw1) \<Rightarrow> unrouteTimeoutLoop fw1 sid interval evs)"

text \<open>\<^verbatim>\<open>time.NewTicker\<close> panics on an interval that is not positive.\<close>

definition unrouteTimeout ::
  "forwarder \<Rightarrow> sessionId \<Rightarrow> int64 \<Rightarrow> (env \<times> select_event) list \<Rightarrow> panic + (loop \<times> forwarder)" where
  "unrouteTimeout fw sid interval evs =
     (if sint interval \<le> 0 then Inl NewTickerPanic
      else unrouteTimeoutLoop fw sid interval evs)"

subsection \<open>Sequences of calls\<close>

text \<open>
  The calls that reach a forwarder, one after the other: the exported methods, and one
  pass of a timeout worker through its \<^verbatim>\<open>select\<close>. Each call comes with the
  environment of its moment. A panic ends the run.
\<close>

datatype op =
    OpRegisterDestination sessionId address destination
  | OpUnregisterDestinations sessionId
  | OpRegisterLink string
  | OpUnregisterLink string
  | OpRoute route
  | OpUnroute sessionId bool
  | OpEndSession sessionId
  | OpForwardPayload address payload
  | OpForwardAcknowledgement address acknowledgement
  | OpUnrouteTimeoutSelect sessionId int64 select_event

fun step :: "env \<Rightarrow> forwarder \<Rightarrow> op \<Rightarrow> panic + forwarder" where
  "step e fw (OpRegisterDestination sid a d) = Inr (RegisterDestination fw sid a d)"
| "step e fw (OpUnregisterDestinations sid) = UnregisterDestinations fw sid"
| "step e fw (OpRegisterLink token) = Inr (RegisterLink fw token)"
| "step e fw (OpUnregisterLink token) = Inr (UnregisterLink fw token)"
| "step e fw (OpRoute r) = Inr (Route fw r)"
| "step e fw (OpUnroute sid now) = Unroute fw sid now"
| "step e fw (OpEndSession sid) = EndSession fw sid"
| "step e fw (OpForwardPayload srcAddr p) = Inr (snd (ForwardPayload e fw srcAddr p))"
| "step e fw (OpForwardAcknowledgement srcAddr ack) =
     Inr (snd (ForwardAcknowledgement e fw srcAddr ack))"
| "step e fw (OpUnrouteTimeoutSelect sid interval ev) =
     (case unrouteTimeoutSelect e fw sid interval ev of
        Inl p \<Rightarrow> Inl p
      | Inr (l, fw1) \<Rightarrow> Inr fw1)"

fun run :: "forwarder \<Rightarrow> (env \<times> op) list \<Rightarrow> panic + forwarder" where
  "run fw [] = Inr fw"
| "run fw ((e, x) # rest) =
     (case step e fw x of
        Inl p \<Rightarrow> Inl p
      | Inr fw1 \<Rightarrow> run fw1 rest)"

fun routesSession :: "sessionId \<Rightarrow> op \<Rightarrow> bool" where
  "routesSession sid (OpRoute r) = (SessionId r = sid)"
| "routesSession sid x = False"

subsection \<open>The writes of a call, one by one\<close>

text \<open>
  Several methods write more than once, and what another goroutine, or a
  \<^verbatim>\<open>recover\<close>, can see between two writes depends on their order. The following
  functions embed the same methods again, statement by statement: they list the state
  after each write, in the order of the source, and say whether the method panicked;
  after a panic the last state listed is the state at the panic. A method that writes
  once, or not at all, lists the state it ends in; so does \<^verbatim>\<open>Route\<close>, whose writes all
  go to the forward table of one session.
\<close>

type_synonym trace = "panic option \<times> forwarder list"

text \<open>What a trace started at \<open>fw\<close> amounts to: the panic, or the last state.\<close>

fun outcome :: "forwarder \<Rightarrow> trace \<Rightarrow> panic + forwarder" where
  "outcome fw (Some p, tr) = Inl p"
| "outcome fw (None, tr) = Inr (last (fw # tr))"


text \<open>
  The loop of \<^verbatim>\<open>UnregisterDestinations\<close>, lines 87 to 95: \<^verbatim>\<open>removeDestination\<close> at line
  90, then the \<^verbatim>\<open>go\<close> statement at line 91, whose type assertion may panic.
\<close>

fun unregisterEachTrace :: "address list \<Rightarrow> forwarder \<Rightarrow> trace" where
  "unregisterEachTrace [] fw = (None, [])"
| "unregisterEachTrace (a # addrs) fw =
     (case getDestination fw a of
        Some d \<Rightarrow>
          (let fw1 = removeDestination a fw in
             case assertXgressDestination d of
               None \<Rightarrow> (Some TypeAssertionPanic, [fw1])
             | Some x \<Rightarrow>
                 (let fw2 = emit (GoUnrouted x) fw1 in
                    case unregisterEachTrace addrs fw2 of
                      (p, tr) \<Rightarrow> (p, fw1 # fw2 # tr)))
      | None \<Rightarrow> unregisterEachTrace addrs fw)"

text \<open>\<^verbatim>\<open>UnregisterDestinations\<close>: the loop, then \<^verbatim>\<open>unlinkSession\<close> at line 96.\<close>

definition UnregisterDestinationsTrace :: "forwarder \<Rightarrow> sessionId \<Rightarrow> trace" where
  "UnregisterDestinationsTrace fw sid =
     (case getAddressesForSession fw sid of
        Some addrs \<Rightarrow>
          (case unregisterEachTrace addrs fw of
             (Some p, tr) \<Rightarrow> (Some p, tr)
           | (None, tr) \<Rightarrow> (None, tr @ [unlinkSession sid (last (fw # tr))]))
      | None \<Rightarrow> (None, []))"









text \<open>Every destination found for the addresses is an xgress.\<close>

definition allXgress :: "forwarder \<Rightarrow> address list \<Rightarrow> bool" where
  "allXgress fw addrs =
     list_all (\<lambda>a. case getDestination fw a of
                     Some d \<Rightarrow> isXgressDestination d
                   | None \<Rightarrow> True) addrs"

text \<open>The elements of a list in the order of their first occurrence.\<close>

fun firstOccurrences :: "'a list \<Rightarrow> 'a list" where
  "firstOccurrences [] = []"
| "firstOccurrences (a # xs) = a # filter (\<lambda>b. b \<noteq> a) (firstOccurrences xs)"

subsection \<open>Example states\<close>

text \<open>
  Scenario S1 of the specification, with one forward more whose target \<open>d\<close> is not
  registered: endpoints \<open>A\<close> and \<open>B\<close> at the addresses \<open>a\<close> and \<open>b\<close> of session
  \<open>s1\<close>, and the route of \<open>s1\<close>.
\<close>

definition s1Route :: route where
  "s1Route =
     \<lparr>SessionId = ''s1'',
      Forwards = [\<lparr>SrcAddress = ''a'', DstAddress = ''b''\<rparr>,
                  \<lparr>SrcAddress = ''b'', DstAddress = ''a''\<rparr>,
                  \<lparr>SrcAddress = ''c'', DstAddress = ''d''\<rparr>]\<rparr>"

definition s1Forwarder :: forwarder where
  "s1Forwarder =
     Route (RegisterDestination (RegisterDestination (NewForwarder 1000000000)
              ''s1'' ''a'' (Xgress ''A'')) ''s1'' ''b'' (Xgress ''B'')) s1Route"

text \<open>A link registered as the destination of a session, alone and after an xgress.\<close>

definition linkInSession :: forwarder where
  "linkInSession =
     RegisterDestination (NewForwarder 1000000000) ''s1'' ''t1'' (Xlink ''t1'')"

definition xgressThenLink :: forwarder where
  "xgressThenLink =
     RegisterDestination (RegisterDestination (NewForwarder 1000000000)
       ''s1'' ''a'' (Xgress ''A'')) ''s1'' ''t1'' (Xlink ''t1'')"

text \<open>
  Environments: destinations that accept everything and were last heard 500 ms ago;
  destinations whose sends fail; and destinations that report a time of last receipt
  far in the past.
\<close>

definition quietEnv :: env where
  "quietEnv =
     \<lparr>sendPayload = (\<lambda>d p. None), sendAcknowledgement = (\<lambda>d a. None),
      getTimeOfLastRxFromLink = (\<lambda>d. 1700000000000),
      nowInMilliseconds = 1700000000500\<rparr>"

definition failingEnv :: env where
  "failingEnv =
     \<lparr>sendPayload = (\<lambda>d p. Some (Errorf ''channel closed'' [])),
      sendAcknowledgement = (\<lambda>d a. Some (Errorf ''channel closed'' [])),
      getTimeOfLastRxFromLink = (\<lambda>d. 1700000000000),
      nowInMilliseconds = 1700000000500\<rparr>"

definition ancientEnv :: env where
  "ancientEnv =
     \<lparr>sendPayload = (\<lambda>d p. None), sendAcknowledgement = (\<lambda>d a. None),
      getTimeOfLastRxFromLink = (\<lambda>d. - 9000000000000),
      nowInMilliseconds = 1700000000000\<rparr>"


section \<open>Properties\<close>

subsection \<open>Auxiliary facts\<close>

lemmas table_defs =
  getForwardTable_def setForwardTable_def removeForwardTable_def newForwardTable_def
  setForwardAddress_def getForwardAddress_def addDestination_def getDestination_def
  removeDestination_def linkDestinationToSession_def getAddressesForSession_def
  unlinkSession_def emit_def

lemma NewForwarder_tables:
  "NewForwarder interval =
     \<lparr>sessions = Map.empty, destinations = Map.empty, sessionAddresses = Map.empty,
      XgressCloseCheckInterval = interval, calls = []\<rparr>"
  by (simp add: NewForwarder_def newSessionTable_def newDestinationTable_def)

lemmas example_defs =
  s1Route_def s1Forwarder_def linkInSession_def xgressThenLink_def NewForwarder_tables
  RegisterDestination_def Route_def

lemma s1_sessions:
  "sessions s1Forwarder = [''s1'' \<mapsto> [''a'' \<mapsto> ''b'', ''b'' \<mapsto> ''a'', ''c'' \<mapsto> ''d'']]"
  by (simp add: example_defs table_defs)

lemma s1_destinations:
  "destinations s1Forwarder = [''a'' \<mapsto> Xgress ''A'', ''b'' \<mapsto> Xgress ''B'']"
  by (simp add: example_defs table_defs)

lemma s1_sessionAddresses: "sessionAddresses s1Forwarder = [''s1'' \<mapsto> [''a'', ''b'']]"
  by (simp add: example_defs table_defs)

lemma s1_calls: "calls s1Forwarder = []"
  by (simp add: example_defs table_defs)

lemma map_filter_remove_key:
  "List.map_filter (m(a := None)) xs = List.map_filter m (filter (\<lambda>b. b \<noteq> a) xs)"
  by (induction xs) (auto split: option.splits)

lemma map_filter_absent_key:
  "m a = None \<Longrightarrow> List.map_filter m (filter (\<lambda>b. b \<noteq> a) xs) = List.map_filter m xs"
  by (induction xs) (auto split: option.splits)

lemma restrict_absent_key: "m a = None \<Longrightarrow> m |` (- insert a S) = m |` (- S)"
  by (rule ext) (simp add: restrict_map_def)

lemma allXgress_Nil: "allXgress fw [] = True"
  by (simp add: allXgress_def)

lemma allXgress_Cons:
  "allXgress fw (a # addrs) =
     ((case destinations fw a of Some d \<Rightarrow> isXgressDestination d | None \<Rightarrow> True)
      \<and> allXgress fw addrs)"
  by (simp add: allXgress_def getDestination_def)

lemma allXgress_after_remove:
  assumes "destinations fw a = Some (Xgress l)"
  shows "allXgress (emit c (removeDestination a fw)) addrs = allXgress fw addrs"
  using assms
  by (induction addrs) (simp_all add: allXgress_def table_defs)

text \<open>The loop of \<^verbatim>\<open>UnregisterDestinations\<close> in closed form.\<close>

lemma unregisterEach_eq:
  "unregisterEach addrs fw =
     (if allXgress fw addrs
      then Inr (fw\<lparr>destinations := destinations fw |` (- set addrs),
                   calls := calls fw @ map GoUnrouted
                              (List.map_filter (destinations fw) (firstOccurrences addrs))\<rparr>)
      else Inl TypeAssertionPanic)"
proof (induction addrs arbitrary: fw)
  case Nil
  have "destinations fw |` UNIV = destinations fw"
    by (rule ext) (simp add: restrict_map_def)
  then show ?case by (simp add: allXgress_Nil)
next
  case (Cons a addrs)
  show ?case
  proof (cases "destinations fw a")
    case None
    then show ?thesis
      by (simp add: Cons.IH allXgress_Cons getDestination_def
          map_filter_absent_key restrict_absent_key)
  next
    case (Some d)
    show ?thesis
    proof (cases d)
      case (Xlink t)
      with Some show ?thesis
        by (simp add: allXgress_Cons getDestination_def)
    next
      case (Xgress l)
      with Some have da: "destinations fw a = Some (Xgress l)" by simp
      have first: "unregisterEach (a # addrs) fw =
                    unregisterEach addrs (emit (GoUnrouted (Xgress l)) (removeDestination a fw))"
        using da by (simp add: getDestination_def)
      show ?thesis
        unfolding first Cons.IH allXgress_after_remove [OF da]
        using da
        by (simp add: allXgress_Cons table_defs
            map_filter_remove_key restrict_map_def fun_eq_iff)
    qed
  qed
qed

lemma firstOccurrences_set: "set (firstOccurrences xs) = set xs"
  by (induction xs) auto

lemma firstOccurrences_distinct: "distinct (firstOccurrences xs)"
  by (induction xs) (simp_all add: firstOccurrences_set)

lemma allXgress_iff:
  "allXgress fw addrs =
     (\<forall>a\<in>set addrs. \<forall>d. destinations fw a = Some d \<longrightarrow> isXgressDestination d)"
  by (auto simp: allXgress_def getDestination_def list_all_iff split: option.splits)

lemma linkInSession_tables:
  "sessionAddresses linkInSession = [''s1'' \<mapsto> [''t1'']]"
  "destinations linkInSession = [''t1'' \<mapsto> Xlink ''t1'']"
  by (simp_all add: example_defs table_defs)

lemma xgressThenLink_tables:
  "sessionAddresses xgressThenLink = [''s1'' \<mapsto> [''a'', ''t1'']]"
  "destinations xgressThenLink = [''a'' \<mapsto> Xgress ''A'', ''t1'' \<mapsto> Xlink ''t1'']"
  by (simp_all add: example_defs table_defs)

lemma firstXgress_panics:
  "(firstXgress fw addrs = Inl TypeAssertionPanic) =
     (\<exists>a d. find (\<lambda>a. destinations fw a \<noteq> None) addrs = Some a
            \<and> destinations fw a = Some d \<and> \<not> isXgressDestination d)"
proof (induction addrs)
  case Nil
  show ?case by simp
next
  case (Cons a addrs)
  show ?case
  proof (cases "destinations fw a")
    case None
    with Cons show ?thesis by (simp add: getDestination_def)
  next
    case (Some d)
    then show ?thesis by (cases d) (simp_all add: getDestination_def)
  qed
qed

lemma foldl_setForwardAddress:
  "foldl (\<lambda>ft forward. setForwardAddress (SrcAddress forward) (DstAddress forward) ft) ft fs
     = ft ++ map_of (rev (map (\<lambda>f. (SrcAddress f, DstAddress f)) fs))"
proof (induction fs arbitrary: ft)
  case Nil
  show ?case by simp
next
  case (Cons f fs)
  have "setForwardAddress (SrcAddress f) (DstAddress f) ft ++ m
          = ft ++ ([SrcAddress f \<mapsto> DstAddress f] ++ m)" for m
    by (rule ext) (simp add: setForwardAddress_def map_add_def split: option.splits)
  then show ?case
    by (simp add: Cons.IH)
qed

lemma map_add_twice: "(m ++ n) ++ n = m ++ n"
  by (rule ext) (simp add: map_add_def split: option.splits)

lemma Unroute_now:
  assumes "Unroute fw sid True = Inr fw1"
  shows "sessions fw1 = (sessions fw)(sid := None)" and "sessionAddresses fw1 sid = None"
  using assms
  by (auto simp: Unroute_def EndSession_def UnregisterDestinations_def unregisterEach_eq
      table_defs split: option.splits if_splits)

lemma sint_elapsed_product:
  fixes now lastRx :: int64
  assumes lo: "- 9223372036854 \<le> sint now - sint lastRx"
    and hi: "sint now - sint lastRx \<le> 9223372036854"
  shows "sint ((now - lastRx) * 1000000) = (sint now - sint lastRx) * 1000000"
proof -
  define k where "k = sint now - sint lastRx"
  have k: "- 9223372036854 \<le> k" "k \<le> 9223372036854"
    using lo hi by (simp_all add: k_def)
  have "sint (now - lastRx) = signed_take_bit (LENGTH(64) - 1) k"
    unfolding k_def by (rule sint_word_ariths)
  also have "\<dots> = k"
    using k by (simp add: signed_take_bit_int_eq_self)
  finally have d: "sint (now - lastRx) = k" .
  have "sint ((now - lastRx) * 1000000)
          = signed_take_bit (LENGTH(64) - 1) (sint (now - lastRx) * sint (1000000 :: int64))"
    by (rule sint_word_ariths)
  also have "\<dots> = signed_take_bit 63 (k * 1000000)"
    by (simp add: d)
  also have "\<dots> = k * 1000000"
    using k by (simp add: signed_take_bit_int_eq_self)
  finally show ?thesis
    by (simp only: k_def)
qed

lemma firstXgress_nil:
  "firstXgress fw addrs = Inr None \<Longrightarrow> \<forall>a\<in>set addrs. destinations fw a = None"
proof (induction addrs)
  case Nil
  show ?case by simp
next
  case (Cons a addrs)
  show ?case
  proof (cases "destinations fw a")
    case None
    with Cons show ?thesis by (simp add: getDestination_def)
  next
    case (Some d)
    with Cons.prems show ?thesis by (cases d) (simp_all add: getDestination_def)
  qed
qed

lemma unregisterEach_unresolved:
  "\<forall>a\<in>set addrs. destinations fw a = None \<Longrightarrow> unregisterEach addrs fw = Inr fw"
  by (induction addrs) (simp_all add: getDestination_def)

lemma reap_nil:
  assumes "getXgressForSession fw sid = Inr None"
  shows "EndSession (removeForwardTable sid fw) sid =
           Inr (fw\<lparr>sessions := (sessions fw)(sid := None),
                   sessionAddresses := (sessionAddresses fw)(sid := None)\<rparr>)"
proof (cases "sessionAddresses fw sid")
  case None
  then have "(sessionAddresses fw)(sid := None) = sessionAddresses fw"
    by (simp add: fun_eq_iff)
  with None show ?thesis
    by (simp add: EndSession_def UnregisterDestinations_def getAddressesForSession_def
        removeForwardTable_def)
next
  case (Some addrs)
  with assms have "firstXgress fw addrs = Inr None"
    by (simp add: getXgressForSession_def getAddressesForSession_def)
  then have "\<forall>a\<in>set addrs. destinations (removeForwardTable sid fw) a = None"
    by (simp add: firstXgress_nil removeForwardTable_def)
  then have "unregisterEach addrs (removeForwardTable sid fw) = Inr (removeForwardTable sid fw)"
    by (rule unregisterEach_unresolved)
  with Some show ?thesis
    by (simp add: EndSession_def UnregisterDestinations_def getAddressesForSession_def
        removeForwardTable_def unlinkSession_def)
qed

lemma s1_xgress: "getXgressForSession s1Forwarder ''s1'' = Inr (Some (Xgress ''A''))"
  by (simp add: getXgressForSession_def getAddressesForSession_def getDestination_def
      s1_sessionAddresses s1_destinations)

lemma UnregisterDestinations_sessions:
  "UnregisterDestinations fw sid = Inr fw1 \<Longrightarrow> sessions fw1 = sessions fw"
  by (auto simp: UnregisterDestinations_def unregisterEach_eq table_defs
      split: option.splits if_splits)

lemma ForwardPayload_sessions: "sessions (snd (ForwardPayload e fw srcAddr p)) = sessions fw"
  by (simp add: ForwardPayload_def table_defs Let_def split: option.splits)

lemma ForwardAcknowledgement_sessions:
  "sessions (snd (ForwardAcknowledgement e fw srcAddr ack)) = sessions fw"
  by (simp add: ForwardAcknowledgement_def table_defs Let_def split: option.splits)

lemma Route_other_session:
  "SessionId r \<noteq> sid \<Longrightarrow> sessions (Route fw r) sid = sessions fw sid"
  by (simp add: Route_def Let_def setForwardTable_def)

lemma Unroute_sessions:
  assumes "Unroute fw s now = Inr fw1" and "sessions fw sid = None"
  shows "sessions fw1 sid = None"
proof (cases now)
  case True
  with assms Unroute_now(1) [of fw s fw1] show ?thesis by simp
next
  case False
  with assms show ?thesis by (auto simp: Unroute_def emit_def)
qed

lemma unrouteTimeoutSelect_sessions:
  assumes "unrouteTimeoutSelect e fw s interval ev = Inr (l, fw1)" and "sessions fw sid = None"
  shows "sessions fw1 sid = None"
proof -
  have "fw1 = fw \<or> Unroute fw s True = Inr fw1"
    using assms(1)
    by (auto simp: unrouteTimeoutSelect_def Unroute_def Let_def
        split: select_event.splits sum.splits option.splits if_splits)
  then show ?thesis
    using assms(2) Unroute_sessions by blast
qed

lemma step_keeps_no_forward_table:
  assumes "step e fw x = Inr fw1" and "sessions fw sid = None" and "\<not> routesSession sid x"
  shows "sessions fw1 sid = None"
proof (cases x)
  case (OpRegisterDestination s a d)
  with assms show ?thesis by (auto simp: RegisterDestination_def table_defs)
next
  case (OpUnregisterDestinations s)
  with assms show ?thesis by (auto dest: UnregisterDestinations_sessions)
next
  case (OpRegisterLink t)
  with assms show ?thesis by (auto simp: RegisterLink_def table_defs)
next
  case (OpUnregisterLink t)
  with assms show ?thesis by (auto simp: UnregisterLink_def table_defs)
next
  case (OpRoute r)
  with assms show ?thesis by (auto simp: Route_other_session)
next
  case (OpUnroute s now)
  with assms show ?thesis by (auto dest: Unroute_sessions)
next
  case (OpEndSession s)
  with assms show ?thesis by (auto simp: EndSession_def dest: UnregisterDestinations_sessions)
next
  case (OpForwardPayload srcAddr p)
  with assms show ?thesis by (auto simp: ForwardPayload_sessions)
next
  case (OpForwardAcknowledgement srcAddr ack)
  with assms show ?thesis by (auto simp: ForwardAcknowledgement_sessions)
next
  case (OpUnrouteTimeoutSelect s interval ev)
  with assms show ?thesis
    by (auto split: sum.splits dest: unrouteTimeoutSelect_sessions)
qed

lemma run_keeps_no_forward_table:
  assumes "run fw steps = Inr fw1" and "sessions fw sid = None"
    and "\<forall>s\<in>set steps. \<not> routesSession sid (snd s)"
  shows "sessions fw1 sid = None"
  using assms
proof (induction steps arbitrary: fw)
  case Nil
  then show ?case by simp
next
  case (Cons s steps)
  obtain e x where s: "s = (e, x)" by (cases s)
  from Cons.prems(1) s obtain fw2 where st: "step e fw x = Inr fw2"
    and r: "run fw2 steps = Inr fw1"
    by (auto split: sum.splits)
  from st Cons.prems s have "sessions fw2 sid = None"
    by (auto intro: step_keeps_no_forward_table)
  with r Cons.prems(3) show ?case
    by (auto intro: Cons.IH)
qed

text \<open>
  The statement-by-statement embeddings agree with the methods: what a method returns
  is the outcome of its trace.
\<close>

lemma unregisterEach_outcome:
  "unregisterEach addrs fw = outcome fw (unregisterEachTrace addrs fw)"
proof (induction addrs arbitrary: fw)
  case Nil
  show ?case by simp
next
  case (Cons a addrs)
  show ?case
  proof (cases "getDestination fw a")
    case None
    then show ?thesis by (simp add: Cons.IH)
  next
    case (Some d)
    show ?thesis
    proof (cases d)
      case (Xlink t)
      with Some show ?thesis by simp
    next
      case (Xgress l)
      obtain p tr where t: "unregisterEachTrace addrs
          (emit (GoUnrouted (Xgress l)) (removeDestination a fw)) = (p, tr)"
        by (cases "unregisterEachTrace addrs
          (emit (GoUnrouted (Xgress l)) (removeDestination a fw))")
      show ?thesis
        using Some Xgress t Cons.IH [of "emit (GoUnrouted (Xgress l)) (removeDestination a fw)"]
        by (cases p) (simp_all add: Let_def)
    qed
  qed
qed

lemma UnregisterDestinations_outcome:
  "UnregisterDestinations fw sid = outcome fw (UnregisterDestinationsTrace fw sid)"
proof (cases "getAddressesForSession fw sid")
  case None
  then show ?thesis
    by (simp add: UnregisterDestinations_def UnregisterDestinationsTrace_def)
next
  case (Some addrs)
  obtain p tr where t: "unregisterEachTrace addrs fw = (p, tr)"
    by (cases "unregisterEachTrace addrs fw")
  show ?thesis
    using Some t unregisterEach_outcome [of addrs fw]
    by (cases p) (simp_all add: UnregisterDestinations_def UnregisterDestinationsTrace_def)
qed






lemma unregisterEachTrace_append:
  "unregisterEachTrace (xs @ ys) fw =
     (case unregisterEachTrace xs fw of
        (Some p, tr) \<Rightarrow> (Some p, tr)
      | (None, tr) \<Rightarrow>
          (case unregisterEachTrace ys (last (fw # tr)) of
             (q, tr1) \<Rightarrow> (q, tr @ tr1)))"
proof (induction xs arbitrary: fw)
  case Nil
  show ?case by simp
next
  case (Cons a xs)
  show ?case
  proof (cases "getDestination fw a")
    case None
    then show ?thesis by (simp add: Cons.IH)
  next
    case (Some d)
    show ?thesis
    proof (cases d)
      case (Xlink t)
      with Some show ?thesis by simp
    next
      case (Xgress l)
      then show ?thesis
        using Some
        by (simp add: Cons.IH Let_def split: prod.splits option.splits)
    qed
  qed
qed

lemma unregisterEachTrace_allXgress:
  assumes "allXgress fw addrs"
  shows "\<exists>tr. unregisterEachTrace addrs fw = (None, tr)
           \<and> last (fw # tr) =
               fw\<lparr>destinations := destinations fw |` (- set addrs),
                  calls := calls fw @ map GoUnrouted
                             (List.map_filter (destinations fw) (firstOccurrences addrs))\<rparr>"
proof -
  obtain p tr where t: "unregisterEachTrace addrs fw = (p, tr)"
    by (cases "unregisterEachTrace addrs fw")
  from unregisterEach_outcome [of addrs fw] t assms show ?thesis
    by (cases p) (simp_all add: unregisterEach_eq del: last.simps)
qed

lemma unregisterEachTrace_panic:
  assumes pre: "allXgress fw pre"
    and b: "destinations fw b = Some d" "\<not> isXgressDestination d"
  shows "\<exists>tr. unregisterEachTrace (pre @ b # rest) fw = (Some TypeAssertionPanic, tr)
           \<and> last (fw # tr) =
               fw\<lparr>destinations := destinations fw |` (- set (pre @ [b])),
                  calls := calls fw @ map GoUnrouted
                             (List.map_filter (destinations fw) (firstOccurrences pre))\<rparr>"
proof -
  from unregisterEachTrace_allXgress [OF pre] obtain tr
    where t: "unregisterEachTrace pre fw = (None, tr)"
      and l: "last (fw # tr) =
               fw\<lparr>destinations := destinations fw |` (- set pre),
                  calls := calls fw @ map GoUnrouted
                             (List.map_filter (destinations fw) (firstOccurrences pre))\<rparr>"
    by blast
  have nb: "b \<notin> set pre"
    using pre b by (auto simp: allXgress_iff)
  have a: "assertXgressDestination d = None"
    using b(2) by (cases d) simp_all
  have r: "(destinations fw |` (- set pre))(b := None) = destinations fw |` (- set (pre @ [b]))"
    by (rule ext) (simp add: restrict_map_def)
  have at_b: "unregisterEachTrace (b # rest) (last (fw # tr))
                = (Some TypeAssertionPanic, [removeDestination b (last (fw # tr))])"
    unfolding l using nb b(1) a
    by (simp add: getDestination_def)
  have tr_eq: "unregisterEachTrace (pre @ b # rest) fw
          = (Some TypeAssertionPanic, tr @ [removeDestination b (last (fw # tr))])"
    by (simp add: unregisterEachTrace_append t at_b
        del: last.simps unregisterEachTrace.simps)
  have e: "last (fw # tr @ [y]) = y" for y
    by simp
  have st: "removeDestination b (last (fw # tr)) =
               fw\<lparr>destinations := destinations fw |` (- set (pre @ [b])),
                  calls := calls fw @ map GoUnrouted
                             (List.map_filter (destinations fw) (firstOccurrences pre))\<rparr>"
    unfolding l using r by (simp add: removeDestination_def)
  show ?thesis
  proof (intro exI conjI)
    show "unregisterEachTrace (pre @ b # rest) fw
          = (Some TypeAssertionPanic, tr @ [removeDestination b (last (fw # tr))])"
      by (rule tr_eq)
    show "last (fw # tr @ [removeDestination b (last (fw # tr))]) =
               fw\<lparr>destinations := destinations fw |` (- set (pre @ [b])),
                  calls := calls fw @ map GoUnrouted
                             (List.map_filter (destinations fw) (firstOccurrences pre))\<rparr>"
      unfolding e by (rule st)
  qed
qed

lemma reap_eq:
  assumes "sessionAddresses fw sid = Some addrs"
  shows "EndSession (removeForwardTable sid fw) sid =
           (if allXgress fw addrs
            then Inr (fw\<lparr>sessions := (sessions fw)(sid := None),
                         destinations := destinations fw |` (- set addrs),
                         sessionAddresses := (sessionAddresses fw)(sid := None),
                         calls := calls fw @ map GoUnrouted
                                    (List.map_filter (destinations fw) (firstOccurrences addrs))\<rparr>)
            else Inl TypeAssertionPanic)"
proof -
  have "allXgress (removeForwardTable sid fw) addrs = allXgress fw addrs"
    by (simp add: allXgress_def removeForwardTable_def getDestination_def)
  then show ?thesis
    using assms
    by (simp add: EndSession_def UnregisterDestinations_def getAddressesForSession_def
        unregisterEach_eq removeForwardTable_def unlinkSession_def)
qed












subsection \<open>The forward path\<close>

text \<open>
  Claim C1. \<^verbatim>\<open>ForwardPayload(srcAddr, payload)\<close> looks up, in this order, the forward
  table of the payload's session, the destination address of \<open>srcAddr\<close> in it, and the
  destination registered at that address. A miss at the first step returns the
  "no forward table" error, at the second the "no destination address" error, at the
  third the "no destination" error, each without calling anything; when all three are
  found it calls \<^verbatim>\<open>SendPayload(payload)\<close> on the destination, once, and returns what
  that call returns (\<^verbatim>\<open>nil\<close> on success).
\<close>

theorem ForwardPayload_lookup_chain:
  "(sessions fw (payloadSessionId p) = None \<longrightarrow>
      ForwardPayload e fw srcAddr p =
        (Some (Errorf ''cannot forward payload, no forward table for session=%v src=%v''
                 [payloadSessionId p, srcAddr]), fw))
   \<and> (\<forall>ft. sessions fw (payloadSessionId p) = Some ft \<and> ft srcAddr = None \<longrightarrow>
      ForwardPayload e fw srcAddr p =
        (Some (Errorf ''cannot forward payload, no destination address for session=%v src=%v''
                 [payloadSessionId p, srcAddr]), fw))
   \<and> (\<forall>ft dstAddr. sessions fw (payloadSessionId p) = Some ft \<and> ft srcAddr = Some dstAddr
          \<and> destinations fw dstAddr = None \<longrightarrow>
      ForwardPayload e fw srcAddr p =
        (Some (Errorf ''cannot forward payload, no destination for session=%v src=%v dst=%v''
                 [payloadSessionId p, srcAddr, dstAddr]), fw))
   \<and> (\<forall>ft dstAddr dst. sessions fw (payloadSessionId p) = Some ft
          \<and> ft srcAddr = Some dstAddr \<and> destinations fw dstAddr = Some dst \<longrightarrow>
      ForwardPayload e fw srcAddr p =
        (sendPayload e dst p, fw\<lparr>calls := calls fw @ [SendPayload dst p]\<rparr>))"
  by (auto simp: ForwardPayload_def table_defs Let_def split: option.splits)

theorem ForwardPayload_lookup_chain_witness:
  "ForwardPayload quietEnv s1Forwarder ''a'' \<lparr>payloadSessionId = ''s2'', payloadBody = ''x''\<rparr> =
     (Some (Errorf ''cannot forward payload, no forward table for session=%v src=%v''
              [''s2'', ''a'']), s1Forwarder)
   \<and> ForwardPayload quietEnv s1Forwarder ''z'' \<lparr>payloadSessionId = ''s1'', payloadBody = ''x''\<rparr> =
     (Some (Errorf ''cannot forward payload, no destination address for session=%v src=%v''
              [''s1'', ''z'']), s1Forwarder)
   \<and> ForwardPayload quietEnv s1Forwarder ''c'' \<lparr>payloadSessionId = ''s1'', payloadBody = ''x''\<rparr> =
     (Some (Errorf ''cannot forward payload, no destination for session=%v src=%v dst=%v''
              [''s1'', ''c'', ''d'']), s1Forwarder)
   \<and> ForwardPayload quietEnv s1Forwarder ''a'' \<lparr>payloadSessionId = ''s1'', payloadBody = ''x''\<rparr> =
     (None, s1Forwarder\<lparr>calls := [SendPayload (Xgress ''B'')
                \<lparr>payloadSessionId = ''s1'', payloadBody = ''x''\<rparr>]\<rparr>)
   \<and> ForwardPayload failingEnv s1Forwarder ''b'' \<lparr>payloadSessionId = ''s1'', payloadBody = ''x''\<rparr> =
     (Some (Errorf ''channel closed'' []), s1Forwarder\<lparr>calls := [SendPayload (Xgress ''A'')
                \<lparr>payloadSessionId = ''s1'', payloadBody = ''x''\<rparr>]\<rparr>)"
  using
    ForwardPayload_lookup_chain
      [of s1Forwarder "\<lparr>payloadSessionId = ''s2'', payloadBody = ''x''\<rparr>" quietEnv "''a''"]
    ForwardPayload_lookup_chain
      [of s1Forwarder "\<lparr>payloadSessionId = ''s1'', payloadBody = ''x''\<rparr>" quietEnv "''z''"]
    ForwardPayload_lookup_chain
      [of s1Forwarder "\<lparr>payloadSessionId = ''s1'', payloadBody = ''x''\<rparr>" quietEnv "''c''"]
    ForwardPayload_lookup_chain
      [of s1Forwarder "\<lparr>payloadSessionId = ''s1'', payloadBody = ''x''\<rparr>" quietEnv "''a''"]
    ForwardPayload_lookup_chain
      [of s1Forwarder "\<lparr>payloadSessionId = ''s1'', payloadBody = ''x''\<rparr>" failingEnv "''b''"]
  by (simp add: s1_sessions s1_destinations s1_calls quietEnv_def failingEnv_def)


text \<open>
  Claim C6. When a lookup of \<^verbatim>\<open>ForwardPayload\<close> or \<^verbatim>\<open>ForwardAcknowledgement\<close> fails
  (no forward table for the session, no destination address for the source, or no
  destination at that address), the call returns an error and the forwarder is what it
  was before: session table, forward tables, both mappings of the destination table,
  and no call made.
\<close>

theorem forward_lookup_failure_keeps_tables:
  assumes "sessions fw sid = None
           \<or> (\<exists>ft. sessions fw sid = Some ft
                 \<and> (ft srcAddr = None
                    \<or> (\<exists>dstAddr. ft srcAddr = Some dstAddr \<and> destinations fw dstAddr = None)))"
  shows "(payloadSessionId p = sid \<longrightarrow>
            (\<exists>err. ForwardPayload e fw srcAddr p = (Some err, fw)))
         \<and> (ackSessionId ack = sid \<longrightarrow>
            (\<exists>err. ForwardAcknowledgement e fw srcAddr ack = (Some err, fw)))"
  using assms
  by (auto simp: ForwardPayload_def ForwardAcknowledgement_def table_defs Let_def)

theorem forward_lookup_failure_keeps_tables_witness:
  "ForwardPayload failingEnv s1Forwarder ''c'' \<lparr>payloadSessionId = ''s1'', payloadBody = ''x''\<rparr>
     = (Some (Errorf ''cannot forward payload, no destination for session=%v src=%v dst=%v''
               [''s1'', ''c'', ''d'']), s1Forwarder)
   \<and> ForwardAcknowledgement failingEnv s1Forwarder ''c'' \<lparr>ackSessionId = ''s1'', ackBody = ''x''\<rparr>
     = (Some (Errorf ''cannot acknowledge, no destination for session=%v src=%v dst=%v''
               [''s1'', ''c'', ''d'']), s1Forwarder)
   \<and> ForwardAcknowledgement failingEnv s1Forwarder ''a'' \<lparr>ackSessionId = ''s1'', ackBody = ''x''\<rparr>
     = (Some (Errorf ''channel closed'' []),
        s1Forwarder\<lparr>calls := [SendAcknowledgement (Xgress ''B'')
                                   \<lparr>ackSessionId = ''s1'', ackBody = ''x''\<rparr>]\<rparr>)"
  using forward_lookup_failure_keeps_tables
    [where fw = s1Forwarder and sid = "''s1''" and srcAddr = "''c''"
       and p = "\<lparr>payloadSessionId = ''s1'', payloadBody = ''x''\<rparr>"
       and ack = "\<lparr>ackSessionId = ''s1'', ackBody = ''x''\<rparr>" and e = failingEnv]
  by (simp add: s1_sessions s1_destinations s1_calls ForwardPayload_def
      ForwardAcknowledgement_def table_defs failingEnv_def)

subsection \<open>Routes\<close>

text \<open>
  Claim C4. When the session of a \<^verbatim>\<open>Route\<close> message already has a forward table,
  \<^verbatim>\<open>Route\<close> keeps the table and writes the message's forwards into it: a source
  address the message names gets the destination of its last forward in the message,
  every other entry stays. Applying the same message twice gives the same forwarder as
  applying it once.
\<close>

theorem Route_merges_and_is_idempotent:
  "(\<forall>ft. sessions fw (SessionId r) = Some ft \<longrightarrow>
      Route fw r =
        fw\<lparr>sessions := (sessions fw)(SessionId r \<mapsto>
              ft ++ map_of (rev (map (\<lambda>f. (SrcAddress f, DstAddress f)) (Forwards r))))\<rparr>)
   \<and> Route (Route fw r) r = Route fw r"
  by (simp add: Route_def Let_def foldl_setForwardAddress getForwardTable_def
      setForwardTable_def map_add_twice)

theorem Route_merges_and_is_idempotent_witness:
  "sessions (Route s1Forwarder
       \<lparr>SessionId = ''s1'', Forwards = [\<lparr>SrcAddress = ''a'', DstAddress = ''e''\<rparr>,
                                        \<lparr>SrcAddress = ''a'', DstAddress = ''f''\<rparr>]\<rparr>) ''s1''
     = Some [''a'' \<mapsto> ''f'', ''b'' \<mapsto> ''a'', ''c'' \<mapsto> ''d'']
   \<and> Route (Route s1Forwarder s1Route) s1Route = Route s1Forwarder s1Route"
  using Route_merges_and_is_idempotent [of s1Forwarder
      "\<lparr>SessionId = ''s1'', Forwards = [\<lparr>SrcAddress = ''a'', DstAddress = ''e''\<rparr>,
                                        \<lparr>SrcAddress = ''a'', DstAddress = ''f''\<rparr>]\<rparr>"]
    Route_merges_and_is_idempotent [of s1Forwarder s1Route]
  by (auto simp: s1_sessions fun_eq_iff map_add_def)

subsection \<open>Tearing a session down\<close>

text \<open>
  Claim C3, amended. \<^verbatim>\<open>UnregisterDestinations(sessionId)\<close> takes the session's
  addresses and, for each address whose destination is found, removes the destination
  from the address map and then asserts, unchecked, that it is an
  \<^verbatim>\<open>XgressDestination\<close>.
  \<^item> When every destination found is one, each gets exactly one \<^verbatim>\<open>Unrouted()\<close>,
    dispatched with \<^verbatim>\<open>go\<close> (one per address, in the order of the addresses), and the
    session is then unlinked from the session index; nothing else changes.
  \<^item> When a destination found is not one, the call panics. At the panic the
    destinations of the addresses before the offending one and of the offending one
    itself are removed, the destinations before it have had their \<^verbatim>\<open>Unrouted()\<close>
    dispatched, and the session is still linked.
  \<^item> When the session has no entry in the index the call changes nothing.
\<close>

theorem UnregisterDestinations_effect:
  "UnregisterDestinations fw sid = outcome fw (UnregisterDestinationsTrace fw sid)
   \<and> (\<forall>addrs. sessionAddresses fw sid = Some addrs \<and> allXgress fw addrs \<longrightarrow>
       UnregisterDestinations fw sid =
         Inr (fw\<lparr>destinations := destinations fw |` (- set addrs),
                 sessionAddresses := (sessionAddresses fw)(sid := None),
                 calls := calls fw @ map GoUnrouted
                            (List.map_filter (destinations fw) (firstOccurrences addrs))\<rparr>)
       \<and> distinct (firstOccurrences addrs) \<and> set (firstOccurrences addrs) = set addrs)
   \<and> (\<forall>addrs. sessionAddresses fw sid = Some addrs \<and> \<not> allXgress fw addrs \<longrightarrow>
       UnregisterDestinations fw sid = Inl TypeAssertionPanic)
   \<and> (\<forall>pre b rest d. sessionAddresses fw sid = Some (pre @ b # rest) \<and> allXgress fw pre
          \<and> destinations fw b = Some d \<and> \<not> isXgressDestination d \<longrightarrow>
       (\<exists>tr. UnregisterDestinationsTrace fw sid = (Some TypeAssertionPanic, tr)
           \<and> last (fw # tr) =
               fw\<lparr>destinations := destinations fw |` (- set (pre @ [b])),
                  calls := calls fw @ map GoUnrouted
                             (List.map_filter (destinations fw) (firstOccurrences pre))\<rparr>))
   \<and> (sessionAddresses fw sid = None \<longrightarrow> UnregisterDestinations fw sid = Inr fw)"
proof (intro conjI allI impI)
  show "UnregisterDestinations fw sid = outcome fw (UnregisterDestinationsTrace fw sid)"
    by (rule UnregisterDestinations_outcome)
next
  fix pre b rest d
  assume h: "sessionAddresses fw sid = Some (pre @ b # rest) \<and> allXgress fw pre
          \<and> destinations fw b = Some d \<and> \<not> isXgressDestination d"
  then obtain tr where "unregisterEachTrace (pre @ b # rest) fw = (Some TypeAssertionPanic, tr)"
    and "last (fw # tr) =
               fw\<lparr>destinations := destinations fw |` (- set (pre @ [b])),
                  calls := calls fw @ map GoUnrouted
                             (List.map_filter (destinations fw) (firstOccurrences pre))\<rparr>"
    using unregisterEachTrace_panic [of fw pre b d rest] by blast
  with h show "\<exists>tr. UnregisterDestinationsTrace fw sid = (Some TypeAssertionPanic, tr)
           \<and> last (fw # tr) =
               fw\<lparr>destinations := destinations fw |` (- set (pre @ [b])),
                  calls := calls fw @ map GoUnrouted
                             (List.map_filter (destinations fw) (firstOccurrences pre))\<rparr>"
    by (simp add: UnregisterDestinationsTrace_def getAddressesForSession_def del: last.simps)
qed (simp_all add: UnregisterDestinations_def getAddressesForSession_def unregisterEach_eq
      unlinkSession_def firstOccurrences_set firstOccurrences_distinct)

text \<open>
  The claim as first stated (destinations that are not an \<^verbatim>\<open>XgressDestination\<close> are
  removed without a call, and the session is unlinked in every case) fails for a link
  registered as the destination of a session: the call panics after the removal, and
  the session stays linked.
\<close>

theorem UnregisterDestinations_link_counterexample:
  "UnregisterDestinations linkInSession ''s1'' = Inl TypeAssertionPanic
   \<and> UnregisterDestinationsTrace linkInSession ''s1''
       = (Some TypeAssertionPanic, [removeDestination ''t1'' linkInSession])
   \<and> destinations (removeDestination ''t1'' linkInSession) ''t1'' = None
   \<and> sessionAddresses (removeDestination ''t1'' linkInSession) ''s1'' = Some [''t1'']"
  by (simp add: UnregisterDestinations_def UnregisterDestinationsTrace_def
      getAddressesForSession_def getDestination_def removeDestination_def
      linkInSession_tables)

theorem UnregisterDestinations_effect_witness:
  "(\<exists>fw1. UnregisterDestinations s1Forwarder ''s1'' = Inr fw1
       \<and> destinations fw1 ''a'' = None \<and> destinations fw1 ''b'' = None
       \<and> sessionAddresses fw1 ''s1'' = None
       \<and> sessions fw1 = sessions s1Forwarder
       \<and> calls fw1 = [GoUnrouted (Xgress ''A''), GoUnrouted (Xgress ''B'')])
   \<and> UnregisterDestinations linkInSession ''s1'' = Inl TypeAssertionPanic
   \<and> (\<exists>tr. UnregisterDestinationsTrace xgressThenLink ''s1'' = (Some TypeAssertionPanic, tr)
          \<and> destinations (last (xgressThenLink # tr)) ''a'' = None
          \<and> destinations (last (xgressThenLink # tr)) ''t1'' = None
          \<and> sessionAddresses (last (xgressThenLink # tr)) ''s1'' = Some [''a'', ''t1'']
          \<and> calls (last (xgressThenLink # tr)) = [GoUnrouted (Xgress ''A'')])
   \<and> UnregisterDestinations s1Forwarder ''s2'' = Inr s1Forwarder"
proof -
  have x: "sessionAddresses xgressThenLink ''s1'' = Some ([''a''] @ ''t1'' # [])
           \<and> allXgress xgressThenLink [''a'']
           \<and> destinations xgressThenLink ''t1'' = Some (Xlink ''t1'')
           \<and> \<not> isXgressDestination (Xlink ''t1'')"
    by (simp add: xgressThenLink_tables allXgress_def getDestination_def)
  have c: "calls xgressThenLink = []"
    by (simp add: example_defs table_defs)
  from UnregisterDestinations_effect [of xgressThenLink "''s1''", THEN conjunct2, THEN conjunct2,
      THEN conjunct2, THEN conjunct1, rule_format, OF x]
  obtain tr where t: "UnregisterDestinationsTrace xgressThenLink ''s1'' = (Some TypeAssertionPanic, tr)"
    and l: "last (xgressThenLink # tr) =
               xgressThenLink\<lparr>destinations := destinations xgressThenLink |` (- set ([''a''] @ [''t1''])),
                  calls := calls xgressThenLink @ map GoUnrouted
                             (List.map_filter (destinations xgressThenLink) (firstOccurrences [''a'']))\<rparr>"
    by blast
  have third: "\<exists>tr. UnregisterDestinationsTrace xgressThenLink ''s1'' = (Some TypeAssertionPanic, tr)
          \<and> destinations (last (xgressThenLink # tr)) ''a'' = None
          \<and> destinations (last (xgressThenLink # tr)) ''t1'' = None
          \<and> sessionAddresses (last (xgressThenLink # tr)) ''s1'' = Some [''a'', ''t1'']
          \<and> calls (last (xgressThenLink # tr)) = [GoUnrouted (Xgress ''A'')]"
    by (rule exI [of _ tr]) (simp add: t l xgressThenLink_tables c del: last.simps)
  from third
    UnregisterDestinations_effect [of s1Forwarder "''s1''", THEN conjunct2, THEN conjunct1]
    UnregisterDestinations_effect [of linkInSession "''s1''", THEN conjunct2, THEN conjunct2,
      THEN conjunct1]
    UnregisterDestinations_effect [of s1Forwarder "''s2''", THEN conjunct2, THEN conjunct2,
      THEN conjunct2, THEN conjunct2]
  show ?thesis
    by (simp add: s1_sessionAddresses s1_destinations s1_calls linkInSession_tables
      allXgress_def getDestination_def del: last.simps)
qed

text \<open>
  Claim C5, amended. \<^verbatim>\<open>UnregisterDestinations\<close> and \<^verbatim>\<open>getXgressForSession\<close> assert
  without a check that the destinations they find through the session index are
  \<^verbatim>\<open>XgressDestination\<close>s. \<^verbatim>\<open>UnregisterDestinations\<close> panics exactly when some address of
  the session resolves to a destination that is not one (a link, for example);
  \<^verbatim>\<open>getXgressForSession\<close> panics exactly when the first address of the session that
  resolves does so to a destination that is not one: it returns at that address and
  asserts nothing about the later ones. A session without an entry in the index makes
  neither panic.
\<close>

theorem unchecked_assertions_panic:
  "(\<forall>addrs. sessionAddresses fw sid = Some addrs \<longrightarrow>
       (UnregisterDestinations fw sid = Inl TypeAssertionPanic) =
         (\<exists>a d. a \<in> set addrs \<and> destinations fw a = Some d \<and> \<not> isXgressDestination d)
     \<and> (getXgressForSession fw sid = Inl TypeAssertionPanic) =
         (\<exists>a d. find (\<lambda>a. destinations fw a \<noteq> None) addrs = Some a
                \<and> destinations fw a = Some d \<and> \<not> isXgressDestination d))
   \<and> (sessionAddresses fw sid = None \<longrightarrow>
       UnregisterDestinations fw sid = Inr fw \<and> getXgressForSession fw sid = Inr None)"
proof (intro conjI allI impI)
  fix addrs
  assume a: "sessionAddresses fw sid = Some addrs"
  show "(UnregisterDestinations fw sid = Inl TypeAssertionPanic) =
         (\<exists>a d. a \<in> set addrs \<and> destinations fw a = Some d \<and> \<not> isXgressDestination d)"
    using a
    by (auto simp: UnregisterDestinations_def getAddressesForSession_def unregisterEach_eq
        allXgress_iff)
  show "(getXgressForSession fw sid = Inl TypeAssertionPanic) =
         (\<exists>a d. find (\<lambda>a. destinations fw a \<noteq> None) addrs = Some a
                \<and> destinations fw a = Some d \<and> \<not> isXgressDestination d)"
    using a
    by (simp add: getXgressForSession_def getAddressesForSession_def firstXgress_panics)
next
  assume "sessionAddresses fw sid = None"
  then show "UnregisterDestinations fw sid = Inr fw"
    by (simp add: UnregisterDestinations_def getAddressesForSession_def)
next
  assume "sessionAddresses fw sid = None"
  then show "getXgressForSession fw sid = Inr None"
    by (simp add: getXgressForSession_def getAddressesForSession_def)
qed

text \<open>
  The claim as first stated (both functions panic whenever a destination linked to the
  session is not an \<^verbatim>\<open>XgressDestination\<close>) fails for \<^verbatim>\<open>getXgressForSession\<close> when an
  xgress was registered for the session before the link: the xgress is returned.
\<close>

theorem getXgressForSession_later_link_counterexample:
  "sessionAddresses xgressThenLink ''s1'' = Some [''a'', ''t1'']
   \<and> destinations xgressThenLink ''t1'' = Some (Xlink ''t1'')
   \<and> getXgressForSession xgressThenLink ''s1'' = Inr (Some (Xgress ''A''))"
  by (simp add: getXgressForSession_def getAddressesForSession_def getDestination_def
      xgressThenLink_tables)

theorem unchecked_assertions_panic_witness:
  "UnregisterDestinations linkInSession ''s1'' = Inl TypeAssertionPanic
   \<and> getXgressForSession linkInSession ''s1'' = Inl TypeAssertionPanic
   \<and> UnregisterDestinations xgressThenLink ''s1'' = Inl TypeAssertionPanic
   \<and> getXgressForSession xgressThenLink ''s1'' \<noteq> Inl TypeAssertionPanic
   \<and> UnregisterDestinations s1Forwarder ''s1'' \<noteq> Inl TypeAssertionPanic
   \<and> getXgressForSession s1Forwarder ''s1'' \<noteq> Inl TypeAssertionPanic
   \<and> UnregisterDestinations s1Forwarder ''s2'' = Inr s1Forwarder
   \<and> getXgressForSession s1Forwarder ''s2'' = Inr None"
proof -
  have l: "sessionAddresses linkInSession ''s1'' = Some [''t1'']"
    and x: "sessionAddresses xgressThenLink ''s1'' = Some [''a'', ''t1'']"
    and s: "sessionAddresses s1Forwarder ''s1'' = Some [''a'', ''b'']"
    and n: "sessionAddresses s1Forwarder ''s2'' = None"
    by (simp_all add: linkInSession_tables xgressThenLink_tables s1_sessionAddresses)
  note L = unchecked_assertions_panic [of linkInSession "''s1''", THEN conjunct1, rule_format, OF l]
  note X = unchecked_assertions_panic [of xgressThenLink "''s1''", THEN conjunct1, rule_format, OF x]
  note S = unchecked_assertions_panic [of s1Forwarder "''s1''", THEN conjunct1, rule_format, OF s]
  note N = unchecked_assertions_panic [of s1Forwarder "''s2''", THEN conjunct2, rule_format, OF n]
  have l1: "UnregisterDestinations linkInSession ''s1'' = Inl TypeAssertionPanic"
    unfolding L [THEN conjunct1]
    by (rule exI [of _ "''t1''"], rule exI [of _ "Xlink ''t1''"])
       (simp add: linkInSession_tables)
  have l2: "getXgressForSession linkInSession ''s1'' = Inl TypeAssertionPanic"
    unfolding L [THEN conjunct2]
    by (rule exI [of _ "''t1''"], rule exI [of _ "Xlink ''t1''"])
       (simp add: linkInSession_tables)
  have x1: "UnregisterDestinations xgressThenLink ''s1'' = Inl TypeAssertionPanic"
    unfolding X [THEN conjunct1]
    by (rule exI [of _ "''t1''"], rule exI [of _ "Xlink ''t1''"])
       (simp add: xgressThenLink_tables)
  have x2: "getXgressForSession xgressThenLink ''s1'' \<noteq> Inl TypeAssertionPanic"
    unfolding X [THEN conjunct2]
    by (simp add: xgressThenLink_tables)
  have s1: "UnregisterDestinations s1Forwarder ''s1'' \<noteq> Inl TypeAssertionPanic"
    unfolding S [THEN conjunct1]
    by (auto simp: s1_destinations split: if_splits)
  have s2: "getXgressForSession s1Forwarder ''s1'' \<noteq> Inl TypeAssertionPanic"
    unfolding S [THEN conjunct2]
    by (simp add: s1_destinations)
  from l1 l2 x1 x2 s1 s2 N show ?thesis by simp
qed

text \<open>
  Claim C8. When \<^verbatim>\<open>Unroute(sessionId, true)\<close> has returned, the session has neither a
  forward table nor addresses, and a second \<^verbatim>\<open>Unroute(sessionId, true)\<close> returns too
  and leaves the forwarder as it is: no table changes and no call is made.
\<close>

theorem Unroute_twice:
  assumes "Unroute fw sid True = Inr fw1"
  shows "sessions fw1 sid = None \<and> sessionAddresses fw1 sid = None
         \<and> Unroute fw1 sid True = Inr fw1"
proof -
  have s: "sessions fw1 sid = None" and a: "sessionAddresses fw1 sid = None"
    using Unroute_now [OF assms] by simp_all
  have "(sessions fw1)(sid := None) = sessions fw1"
    by (rule ext) (simp add: s)
  then have "removeForwardTable sid fw1 = fw1"
    by (simp add: removeForwardTable_def)
  then show ?thesis
    using s a
    by (simp add: Unroute_def EndSession_def UnregisterDestinations_def
        getAddressesForSession_def)
qed

theorem Unroute_twice_witness:
  "\<exists>fw1. Unroute s1Forwarder ''s1'' True = Inr fw1
       \<and> sessions fw1 ''s1'' = None \<and> sessionAddresses fw1 ''s1'' = None
       \<and> calls fw1 = [GoUnrouted (Xgress ''A''), GoUnrouted (Xgress ''B'')]
       \<and> Unroute fw1 ''s1'' True = Inr fw1"
proof -
  have "\<exists>fw1. Unroute s1Forwarder ''s1'' True = Inr fw1
       \<and> calls fw1 = [GoUnrouted (Xgress ''A''), GoUnrouted (Xgress ''B'')]"
    by (simp add: Unroute_def EndSession_def UnregisterDestinations_def unregisterEach_eq
      table_defs s1_sessionAddresses s1_destinations s1_calls allXgress_def)
  then obtain fw1 where u: "Unroute s1Forwarder ''s1'' True = Inr fw1"
    and c: "calls fw1 = [GoUnrouted (Xgress ''A''), GoUnrouted (Xgress ''B'')]"
    by blast
  from Unroute_twice [OF u] u c show ?thesis by blast
qed

text \<open>
  Claim C2. When \<^verbatim>\<open>Unroute(sessionId, true)\<close> has returned, the session has no forward
  table, and it has none after any further calls among which there is no \<^verbatim>\<open>Route\<close>
  for that session: every \<^verbatim>\<open>ForwardPayload\<close> for the session then fails with the
  "no forward table" error.
\<close>

theorem Unroute_now_then_no_forward_table:
  assumes "Unroute fw sid True = Inr fw1"
    and "run fw1 steps = Inr fw2"
    and "\<forall>s\<in>set steps. \<not> routesSession sid (snd s)"
  shows "sessions fw1 sid = None
         \<and> sessions fw2 sid = None
         \<and> (payloadSessionId p = sid \<longrightarrow>
              ForwardPayload e fw2 srcAddr p =
                (Some (Errorf ''cannot forward payload, no forward table for session=%v src=%v''
                         [sid, srcAddr]), fw2))"
proof -
  have a: "sessions fw1 sid = None"
    using Unroute_now(1) [OF assms(1)] by simp
  have b: "sessions fw2 sid = None"
    using run_keeps_no_forward_table [OF assms(2) a assms(3)] .
  from a b show ?thesis
    by (simp add: ForwardPayload_def getForwardTable_def)
qed

theorem Unroute_now_then_no_forward_table_witness:
  "\<exists>fw1 fw2.
     Unroute s1Forwarder ''s1'' True = Inr fw1
     \<and> run fw1 [(quietEnv, OpRegisterDestination ''s1'' ''a'' (Xgress ''A'')),
                (quietEnv, OpRoute \<lparr>SessionId = ''s2'',
                             Forwards = [\<lparr>SrcAddress = ''a'', DstAddress = ''b''\<rparr>]\<rparr>),
                (quietEnv, OpUnroute ''s1'' False),
                (quietEnv, OpForwardPayload ''a''
                             \<lparr>payloadSessionId = ''s1'', payloadBody = ''x''\<rparr>)] = Inr fw2
     \<and> ForwardPayload quietEnv fw2 ''a'' \<lparr>payloadSessionId = ''s1'', payloadBody = ''x''\<rparr> =
         (Some (Errorf ''cannot forward payload, no forward table for session=%v src=%v''
                  [''s1'', ''a'']), fw2)"
proof -
  let ?steps = "[(quietEnv, OpRegisterDestination ''s1'' ''a'' (Xgress ''A'')),
                (quietEnv, OpRoute \<lparr>SessionId = ''s2'',
                             Forwards = [\<lparr>SrcAddress = ''a'', DstAddress = ''b''\<rparr>]\<rparr>),
                (quietEnv, OpUnroute ''s1'' False),
                (quietEnv, OpForwardPayload ''a''
                             \<lparr>payloadSessionId = ''s1'', payloadBody = ''x''\<rparr>)]"
  have "\<exists>fw1. Unroute s1Forwarder ''s1'' True = Inr fw1"
    by (simp add: Unroute_def EndSession_def UnregisterDestinations_def unregisterEach_eq
      table_defs s1_sessionAddresses s1_destinations s1_calls allXgress_def)
  then obtain fw1 where u: "Unroute s1Forwarder ''s1'' True = Inr fw1" by blast
  have "\<exists>fw2. run fw1 ?steps = Inr fw2"
    by (simp add: Unroute_def)
  then obtain fw2 where r: "run fw1 ?steps = Inr fw2" by blast
  have n: "\<forall>s\<in>set ?steps. \<not> routesSession ''s1'' (snd s)"
    by simp
  from Unroute_now_then_no_forward_table [OF u r n, of "\<lparr>payloadSessionId = ''s1'', payloadBody = ''x''\<rparr>" quietEnv "''a''"]
    u r show ?thesis by auto
qed

subsection \<open>The timeout worker\<close>

text \<open>
  Claim C7, amended. One pass of the worker of a session through its \<^verbatim>\<open>select\<close>:
  \<^item> on the close-notify signal it returns and the forwarder is untouched;
  \<^item> on a tick it resolves the xgress destination of the session (the first address of
    the session that has a destination; a panic of the unchecked assertion there ends
    the pass). If there is none it removes the forward table, ends the session and
    returns: the session then has neither a forward table nor addresses, and nothing
    else has changed.
  \<^item> Otherwise, with \<open>\<Delta>\<close> the milliseconds from the destination's time of last receipt
    to now, and \<open>\<Delta>\<close> within 9223372036854 ms (the range in which \<open>\<Delta>\<close> milliseconds is
    a \<^verbatim>\<open>time.Duration\<close>): if \<open>\<Delta>\<close> milliseconds is less than the interval it goes round
    the loop with the forwarder untouched; if not, it reaps. The reap returns when
    every destination found for the session is an \<^verbatim>\<open>XgressDestination\<close>: the forward
    table is removed, the destinations of the session are removed and get their
    \<^verbatim>\<open>Unrouted()\<close>, and the session is unlinked. The reap panics when some destination
    found for the session is not one, also when that is not the first.
\<close>

theorem unrouteTimeoutSelect_tick:
  "unrouteTimeoutSelect e fw sid interval CloseNotifyC = Inr (Return, fw)
   \<and> (getXgressForSession fw sid = Inr None \<longrightarrow>
        unrouteTimeoutSelect e fw sid interval TickerC =
          Inr (Return, fw\<lparr>sessions := (sessions fw)(sid := None),
                          sessionAddresses := (sessionAddresses fw)(sid := None)\<rparr>))
   \<and> (\<forall>dest addrs. getXgressForSession fw sid = Inr (Some dest)
          \<and> sessionAddresses fw sid = Some addrs
          \<and> - 9223372036854 \<le> sint (nowInMilliseconds e) - sint (getTimeOfLastRxFromLink e dest)
          \<and> sint (nowInMilliseconds e) - sint (getTimeOfLastRxFromLink e dest) \<le> 9223372036854
        \<longrightarrow>
        unrouteTimeoutSelect e fw sid interval TickerC =
          (if sint interval \<le>
                (sint (nowInMilliseconds e) - sint (getTimeOfLastRxFromLink e dest)) * 1000000
           then (if allXgress fw addrs
                 then Inr (Return,
                        fw\<lparr>sessions := (sessions fw)(sid := None),
                           destinations := destinations fw |` (- set addrs),
                           sessionAddresses := (sessionAddresses fw)(sid := None),
                           calls := calls fw @ map GoUnrouted
                              (List.map_filter (destinations fw) (firstOccurrences addrs))\<rparr>)
                 else Inl TypeAssertionPanic)
           else Inr (Continue, fw)))
   \<and> (\<forall>p. getXgressForSession fw sid = Inl p \<longrightarrow>
        unrouteTimeoutSelect e fw sid interval TickerC = Inl p)"
proof (intro conjI allI impI)
  show "unrouteTimeoutSelect e fw sid interval CloseNotifyC = Inr (Return, fw)"
    by (simp add: unrouteTimeoutSelect_def)
next
  assume "getXgressForSession fw sid = Inr None"
  then show "unrouteTimeoutSelect e fw sid interval TickerC =
          Inr (Return, fw\<lparr>sessions := (sessions fw)(sid := None),
                          sessionAddresses := (sessionAddresses fw)(sid := None)\<rparr>)"
    by (simp add: unrouteTimeoutSelect_def reap_nil)
next
  fix dest addrs
  assume h: "getXgressForSession fw sid = Inr (Some dest)
          \<and> sessionAddresses fw sid = Some addrs
          \<and> - 9223372036854 \<le> sint (nowInMilliseconds e) - sint (getTimeOfLastRxFromLink e dest)
          \<and> sint (nowInMilliseconds e) - sint (getTimeOfLastRxFromLink e dest) \<le> 9223372036854"
  then have r: "EndSession (removeForwardTable sid fw) sid =
           (if allXgress fw addrs
            then Inr (fw\<lparr>sessions := (sessions fw)(sid := None),
                         destinations := destinations fw |` (- set addrs),
                         sessionAddresses := (sessionAddresses fw)(sid := None),
                         calls := calls fw @ map GoUnrouted
                                    (List.map_filter (destinations fw) (firstOccurrences addrs))\<rparr>)
            else Inl TypeAssertionPanic)"
    by (simp add: reap_eq)
  from h show "unrouteTimeoutSelect e fw sid interval TickerC =
          (if sint interval \<le>
                (sint (nowInMilliseconds e) - sint (getTimeOfLastRxFromLink e dest)) * 1000000
           then (if allXgress fw addrs
                 then Inr (Return,
                        fw\<lparr>sessions := (sessions fw)(sid := None),
                           destinations := destinations fw |` (- set addrs),
                           sessionAddresses := (sessionAddresses fw)(sid := None),
                           calls := calls fw @ map GoUnrouted
                              (List.map_filter (destinations fw) (firstOccurrences addrs))\<rparr>)
                 else Inl TypeAssertionPanic)
           else Inr (Continue, fw))"
    unfolding unrouteTimeoutSelect_def r
    by (simp add: Let_def sint_elapsed_product del: left_diff_distrib_numeral)
next
  fix p
  assume "getXgressForSession fw sid = Inl p"
  then show "unrouteTimeoutSelect e fw sid interval TickerC = Inl p"
    by (simp add: unrouteTimeoutSelect_def)
qed

text \<open>
  The claim as first stated (on a tick the worker finds no destination and reaps, or
  finds one and reaps exactly when \<open>\<Delta>\<close> is at least the interval) fails outside that
  range, where the 64-bit product \<^verbatim>\<open>Duration(\<Delta>) * Millisecond\<close> wraps: a destination
  that reports a time of last receipt of -9000000000000 ms is, at 1700000000000 ms,
  10700000000000 ms idle, and a worker with an interval of one second does not reap
  it. It also fails for a session whose first destination is a link: the tick panics.
\<close>

theorem unrouteTimeoutSelect_overflow_counterexample:
  "getXgressForSession s1Forwarder ''s1'' = Inr (Some (Xgress ''A''))
   \<and> sint (nowInMilliseconds ancientEnv)
       - sint (getTimeOfLastRxFromLink ancientEnv (Xgress ''A'')) = 10700000000000
   \<and> sint (1000000000 :: int64) \<le> 10700000000000 * 1000000
   \<and> unrouteTimeoutSelect ancientEnv s1Forwarder ''s1'' 1000000000 TickerC
       = Inr (Continue, s1Forwarder)
   \<and> unrouteTimeoutSelect quietEnv linkInSession ''s1'' 1000000000 TickerC
       = Inl TypeAssertionPanic"
proof -
  have "getXgressForSession linkInSession ''s1'' = Inl TypeAssertionPanic"
    by (simp add: getXgressForSession_def getAddressesForSession_def getDestination_def
        linkInSession_tables)
  then show ?thesis
    by (simp add: s1_xgress unrouteTimeoutSelect_def ancientEnv_def)
qed

theorem unrouteTimeoutSelect_tick_witness:
  "unrouteTimeoutSelect quietEnv s1Forwarder ''s1'' 1000000000 TickerC
     = Inr (Continue, s1Forwarder)
   \<and> (\<exists>fw1. unrouteTimeoutSelect quietEnv s1Forwarder ''s1'' 500000000 TickerC
                = Inr (Return, fw1)
            \<and> sessions fw1 ''s1'' = None \<and> sessionAddresses fw1 ''s1'' = None
            \<and> destinations fw1 ''a'' = None \<and> destinations fw1 ''b'' = None
            \<and> calls fw1 = [GoUnrouted (Xgress ''A''), GoUnrouted (Xgress ''B'')])
   \<and> unrouteTimeoutSelect quietEnv xgressThenLink ''s1'' 1000000000 TickerC
       = Inr (Continue, xgressThenLink)
   \<and> unrouteTimeoutSelect quietEnv xgressThenLink ''s1'' 500000000 TickerC
       = Inl TypeAssertionPanic
   \<and> unrouteTimeoutSelect quietEnv (NewForwarder 1000000000) ''s1'' 1000000000 TickerC
       = Inr (Return, NewForwarder 1000000000)
   \<and> unrouteTimeoutSelect quietEnv linkInSession ''s1'' 1000000000 TickerC
       = Inl TypeAssertionPanic
   \<and> unrouteTimeoutSelect quietEnv s1Forwarder ''s1'' 1000000000 CloseNotifyC
       = Inr (Return, s1Forwarder)"
proof -
  have delta: "sint (nowInMilliseconds quietEnv)
                 - sint (getTimeOfLastRxFromLink quietEnv (Xgress ''A'')) = 500"
    by (simp add: quietEnv_def)
  have x: "getXgressForSession xgressThenLink ''s1'' = Inr (Some (Xgress ''A''))"
    by (simp add: getXgressForSession_def getAddressesForSession_def getDestination_def
        xgressThenLink_tables)
  have n: "getXgressForSession (NewForwarder 1000000000) ''s1'' = Inr None"
    by (simp add: getXgressForSession_def getAddressesForSession_def NewForwarder_tables)
  have l: "getXgressForSession linkInSession ''s1'' = Inl TypeAssertionPanic"
    by (simp add: getXgressForSession_def getAddressesForSession_def getDestination_def
        linkInSession_tables)
  have sa: "allXgress s1Forwarder [''a'', ''b'']"
    and xa: "\<not> allXgress xgressThenLink [''a'', ''t1'']"
    by (simp_all add: allXgress_def getDestination_def s1_destinations xgressThenLink_tables)
  have w1: "unrouteTimeoutSelect quietEnv s1Forwarder ''s1'' 1000000000 TickerC
              = Inr (Continue, s1Forwarder)"
    using unrouteTimeoutSelect_tick [of quietEnv s1Forwarder "''s1''" 1000000000]
      s1_xgress delta by (simp add: s1_sessionAddresses)
  have w2: "\<exists>fw1. unrouteTimeoutSelect quietEnv s1Forwarder ''s1'' 500000000 TickerC
                = Inr (Return, fw1)
            \<and> sessions fw1 ''s1'' = None \<and> sessionAddresses fw1 ''s1'' = None
            \<and> destinations fw1 ''a'' = None \<and> destinations fw1 ''b'' = None
            \<and> calls fw1 = [GoUnrouted (Xgress ''A''), GoUnrouted (Xgress ''B'')]"
    using unrouteTimeoutSelect_tick [of quietEnv s1Forwarder "''s1''" 500000000]
      s1_xgress delta sa
    by (simp add: s1_sessionAddresses s1_destinations s1_calls)
  have w3: "unrouteTimeoutSelect quietEnv xgressThenLink ''s1'' 1000000000 TickerC
              = Inr (Continue, xgressThenLink)"
    using unrouteTimeoutSelect_tick [of quietEnv xgressThenLink "''s1''" 1000000000]
      x delta by (simp add: xgressThenLink_tables)
  have w4: "unrouteTimeoutSelect quietEnv xgressThenLink ''s1'' 500000000 TickerC
              = Inl TypeAssertionPanic"
    using unrouteTimeoutSelect_tick [of quietEnv xgressThenLink "''s1''" 500000000]
      x delta xa by (simp add: xgressThenLink_tables)
  have w5: "unrouteTimeoutSelect quietEnv (NewForwarder 1000000000) ''s1'' 1000000000 TickerC
              = Inr (Return, NewForwarder 1000000000)"
    using unrouteTimeoutSelect_tick [of quietEnv "NewForwarder 1000000000" "''s1''" 1000000000]
      n by (simp add: NewForwarder_tables)
  have w6: "unrouteTimeoutSelect quietEnv linkInSession ''s1'' 1000000000 TickerC
              = Inl TypeAssertionPanic"
    using unrouteTimeoutSelect_tick [of quietEnv linkInSession "''s1''" 1000000000] l
    by simp
  have w7: "unrouteTimeoutSelect quietEnv s1Forwarder ''s1'' 1000000000 CloseNotifyC
              = Inr (Return, s1Forwarder)"
    using unrouteTimeoutSelect_tick [of quietEnv s1Forwarder "''s1''" 1000000000] by simp
  from w1 w2 w3 w4 w5 w6 w7 show ?thesis by blast
qed

text \<open>
  The goroutine as a whole: it panics at once when the interval is not positive, since
  \<^verbatim>\<open>time.NewTicker\<close> does; with a positive interval, a close-notify signal as the next
  event makes it return with the forwarder untouched, and a tick that finds the
  session's destination heard from less than an interval ago leaves it waiting for
  the next event.
\<close>

lemma unrouteTimeout_nonpositive_interval:
  "sint interval \<le> 0 \<Longrightarrow> unrouteTimeout fw sid interval evs = Inl NewTickerPanic"
  by (simp add: unrouteTimeout_def)

lemma unrouteTimeout_close_notify:
  "0 < sint interval \<Longrightarrow>
     unrouteTimeout fw sid interval ((e, CloseNotifyC) # evs) = Inr (Return, fw)"
  by (simp add: unrouteTimeout_def unrouteTimeoutSelect_def)

lemma unrouteTimeout_stays_scheduled:
  "unrouteTimeout s1Forwarder ''s1'' 1000000000 [(quietEnv, TickerC), (quietEnv, TickerC)]
     = Inr (Continue, s1Forwarder)
   \<and> unrouteTimeout s1Forwarder ''s1'' 1000000000
        [(quietEnv, TickerC), (quietEnv, CloseNotifyC), (quietEnv, TickerC)]
     = Inr (Return, s1Forwarder)"
  by (simp add: unrouteTimeout_def unrouteTimeoutSelect_def s1_xgress quietEnv_def)

subsection \<open>Registering destinations\<close>




subsection \<open>Links\<close>

text \<open>
  Claim C10. After \<^verbatim>\<open>UnregisterLink(link)\<close>, \<^verbatim>\<open>HasDestination\<close> of the link's identity
  token is false; neither \<^verbatim>\<open>RegisterLink\<close> nor \<^verbatim>\<open>UnregisterLink\<close> changes the mapping
  from sessions to addresses (nor the session table).
\<close>

theorem UnregisterLink_removes_and_keeps_sessions:
  "HasDestination (UnregisterLink fw token) token = False
   \<and> sessionAddresses (UnregisterLink fw token) = sessionAddresses fw
   \<and> sessionAddresses (RegisterLink fw token) = sessionAddresses fw
   \<and> sessions (UnregisterLink fw token) = sessions fw
   \<and> sessions (RegisterLink fw token) = sessions fw"
  by (simp add: HasDestination_def UnregisterLink_def RegisterLink_def
      removeDestination_def addDestination_def getDestination_def)

theorem UnregisterLink_removes_and_keeps_sessions_witness:
  "HasDestination (RegisterLink (NewForwarder 1000000000) ''t1'') ''t1'' = True
   \<and> HasDestination
       (UnregisterLink (RegisterLink (NewForwarder 1000000000) ''t1'') ''t1'') ''t1'' = False
   \<and> sessionAddresses
       (UnregisterLink (RegisterLink (NewForwarder 1000000000) ''t1'') ''t1'') = Map.empty"
  using UnregisterLink_removes_and_keeps_sessions
          [of "RegisterLink (NewForwarder 1000000000) ''t1''" "''t1''"]
  by (simp add: HasDestination_def RegisterLink_def NewForwarder_tables
      addDestination_def getDestination_def)

end
